theory Spec2Isabelle
  imports Main "HOL-Library.Word" "HOL-Library.Multiset"
begin

section \<open>Python and numpy operations used by the sources\<close>

text \<open>
  The stickers are stored in a numpy array of shape (6, 3, 3) and dtype int8
  (\<open>np.zeros((6, size, size), dtype=np.int8)\<close>).  The array is modelled by value as a
  list of six faces, each a list of three rows of three stickers.
\<close>

type_synonym color = "8 word"
type_synonym row = "color list"
type_synonym face = "color list list"
type_synonym faces = "color list list list"

datatype error = ValueError string | TypeError | KeyError

definition wf_faces :: "faces \<Rightarrow> bool" where
  \<comment> \<open>the shape (6, 3, 3)\<close>
  "wf_faces fs \<longleftrightarrow>
     length fs = 6 \<and> list_all (\<lambda>f. length f = 3 \<and> list_all (\<lambda>r. length r = 3) f) fs"

definition slice_bound :: "int \<Rightarrow> nat \<Rightarrow> nat" where
  \<comment> \<open>how Python clamps the bound of a slice: a negative bound counts from the end\<close>
  "slice_bound i n = (if i < 0 then nat (max 0 (int n + i)) else min (nat i) n)"

definition slice_from :: "int \<Rightarrow> 'a list \<Rightarrow> 'a list" where
  \<comment> \<open>\<open>xs[i:]\<close>\<close>
  "slice_from i xs = drop (slice_bound i (length xs)) xs"

definition slice_to :: "int \<Rightarrow> 'a list \<Rightarrow> 'a list" where
  \<comment> \<open>\<open>xs[:i]\<close>\<close>
  "slice_to i xs = take (slice_bound i (length xs)) xs"

definition rot90 :: "nat \<Rightarrow> 'a list list \<Rightarrow> 'a list list" where
  \<comment> \<open>\<open>np.rot90(m, k)\<close> on a 2-d array: \<open>k = 1\<close> is \<open>transpose(flip(m, 1))\<close>,
      \<open>k = 3\<close> is \<open>flip(transpose(m), 1)\<close>, \<open>k = 2\<close> flips both axes\<close>
  "rot90 k m =
     (if k mod 4 = 0 then m
      else if k mod 4 = 2 then rev (map rev m)
      else if k mod 4 = 1 then transpose (map rev m)
      else map rev (transpose m))"

definition is_space :: "char \<Rightarrow> bool" where
  \<comment> \<open>the characters \<open>str.strip()\<close> and \<open>str.split()\<close> treat as whitespace, among the
      code points below 256\<close>
  "is_space c \<longleftrightarrow>
     (of_char c :: nat) \<in> {9, 10, 11, 12, 13, 28, 29, 30, 31, 32, 133, 160}"

definition str_strip :: "string \<Rightarrow> string" where
  "str_strip s = rev (dropWhile is_space (rev (dropWhile is_space s)))"

fun split_acc :: "string \<Rightarrow> string \<Rightarrow> string list" where
  "split_acc cur [] = (if cur = [] then [] else [cur])"
| "split_acc cur (c # cs) =
     (if is_space c then (if cur = [] then split_acc [] cs else cur # split_acc [] cs)
      else split_acc (cur @ [c]) cs)"

definition str_split :: "string \<Rightarrow> string list" where
  \<comment> \<open>\<open>algorithm.split()\<close>: the maximal runs of non-whitespace characters\<close>
  "str_split s = split_acc [] s"

section \<open>cube.py: class RubiksCube\<close>

text \<open>
  A RubiksCube object has the attributes \<open>size\<close> and \<open>faces\<close>.  The constructor raises
  ValueError unless \<open>size = 3\<close>, and every method reads and writes \<open>self.faces\<close> only, so
  a method that mutates the cube is a function from the array before to the array after.
\<close>

definition solved_faces :: faces where
  \<comment> \<open>\<open>for i in range(6): self.faces[i, :, :] = i\<close>\<close>
  "solved_faces = map (\<lambda>i. replicate 3 (replicate 3 (of_nat i))) [0 ..< 6]"

definition init :: "int \<Rightarrow> error + faces" where
  "init sz =
     (if sz \<noteq> 3 then Inl (ValueError ''Currently only 3x3 cube is supported'')
      else Inr solved_faces)"

definition is_solved :: "faces \<Rightarrow> bool" where
  \<comment> \<open>\<open>np.all(face == face[0, 0])\<close> for every face\<close>
  "is_solved fs = list_all (\<lambda>face. list_all (list_all (\<lambda>x. x = face ! 0 ! 0)) face) fs"

definition rotate_face :: "nat \<Rightarrow> bool \<Rightarrow> faces \<Rightarrow> faces" where
  \<comment> \<open>\<open>np.rot90\<close> returns a view of the face it is given; an assignment whose source
      overlaps its destination goes through a temporary copy, so the face is replaced by
      its rotation\<close>
  "rotate_face face_idx clockwise fs =
     (let k = (if clockwise then 1 else 3)
      in fs[face_idx := rot90 k (fs ! face_idx)])"

definition get_face_edge :: "faces \<Rightarrow> nat \<Rightarrow> nat \<Rightarrow> row option" where
  \<comment> \<open>the method returns None (no branch taken) for an edge index above 3\<close>
  "get_face_edge fs face_idx edge_idx =
     (let face = fs ! face_idx
      in if edge_idx = 0 then Some (face ! 0)
         else if edge_idx = 1 then Some (map last face)
         else if edge_idx = 2 then Some (rev (last face))
         else if edge_idx = 3 then Some (rev (map (\<lambda>r. r ! 0) face))
         else None)"

definition set_face_edge :: "nat \<Rightarrow> nat \<Rightarrow> row \<Rightarrow> faces \<Rightarrow> faces" where
  \<comment> \<open>the strips written by the moves have the length 3 of a row or column\<close>
  "set_face_edge face_idx edge_idx new_edge fs =
     (let face = fs ! face_idx
      in if edge_idx = 0 then fs[face_idx := face[0 := new_edge]]
         else if edge_idx = 1 then
           fs[face_idx := map2 (\<lambda>r v. r[length r - 1 := v]) face new_edge]
         else if edge_idx = 2 then fs[face_idx := face[length face - 1 := rev new_edge]]
         else if edge_idx = 3 then
           fs[face_idx := map2 (\<lambda>r v. r[0 := v]) face (rev new_edge)]
         else fs)"

definition shift_edges :: "(nat \<times> nat) list \<Rightarrow> int \<Rightarrow> faces \<Rightarrow> faces" where
  \<comment> \<open>the block every move ends with: read the four strips, rotate the list of strips
      by \<open>shift\<close>, write them back in the order of \<open>edges\<close>\<close>
  "shift_edges edges shift fs =
     (let edge_values = map (\<lambda>(face, edge). the (get_face_edge fs face edge)) edges;
          edge_values = slice_from shift edge_values @ slice_to shift edge_values
      in foldl (\<lambda>fs ((face, edge), new_edge). set_face_edge face edge new_edge fs)
           fs (zip edges edge_values))"

definition move_F :: "bool \<Rightarrow> faces \<Rightarrow> faces" where
  "move_F prime fs =
     shift_edges [(2, 2), (5, 3), (3, 0), (4, 1)] (if prime then 1 else - 1)
       (rotate_face 0 (\<not> prime) fs)"

definition move_B :: "bool \<Rightarrow> faces \<Rightarrow> faces" where
  "move_B prime fs =
     shift_edges [(2, 0), (4, 3), (3, 2), (5, 1)] (if prime then - 1 else 1)
       (rotate_face 1 (\<not> prime) fs)"

definition move_U :: "bool \<Rightarrow> faces \<Rightarrow> faces" where
  "move_U prime fs =
     shift_edges [(0, 0), (5, 0), (1, 0), (4, 0)] (if prime then 1 else - 1)
       (rotate_face 2 (\<not> prime) fs)"

definition move_D :: "bool \<Rightarrow> faces \<Rightarrow> faces" where
  "move_D prime fs =
     shift_edges [(0, 2), (4, 2), (1, 2), (5, 2)] (if prime then 1 else - 1)
       (rotate_face 3 (\<not> prime) fs)"

definition move_L :: "bool \<Rightarrow> faces \<Rightarrow> faces" where
  "move_L prime fs =
     shift_edges [(0, 3), (2, 3), (1, 1), (3, 3)] (if prime then 1 else - 1)
       (rotate_face 4 (\<not> prime) fs)"

definition move_R :: "bool \<Rightarrow> faces \<Rightarrow> faces" where
  "move_R prime fs =
     shift_edges [(0, 1), (3, 1), (1, 3), (2, 1)] (if prime then 1 else - 1)
       (rotate_face 5 (\<not> prime) fs)"

definition apply_move :: "string \<Rightarrow> faces \<Rightarrow> error + faces" where
  \<comment> \<open>the ValueError is raised before anything is written\<close>
  "apply_move move fs =
     (let move = str_strip move;
          (prime, move) =
            (if length move > 1 \<and> move ! 1 = CHR 0x27 then (True, [move ! 0])
             else (False, move))
      in if move = ''F'' then Inr (move_F prime fs)
         else if move = ''B'' then Inr (move_B prime fs)
         else if move = ''U'' then Inr (move_U prime fs)
         else if move = ''D'' then Inr (move_D prime fs)
         else if move = ''L'' then Inr (move_L prime fs)
         else if move = ''R'' then Inr (move_R prime fs)
         else Inl (ValueError (''Invalid move: '' @ move)))"

fun apply_moves :: "string list \<Rightarrow> faces \<Rightarrow> faces \<times> error option" where
  \<comment> \<open>\<open>for move in ...: self.apply_move(move)\<close>: the array when the loop is left, and
      the exception that left it, if any\<close>
  "apply_moves [] fs = (fs, None)"
| "apply_moves (move # rest) fs =
     (case apply_move move fs of
        Inl e \<Rightarrow> (fs, Some e)
      | Inr fs' \<Rightarrow> apply_moves rest fs')"

definition apply_algorithm :: "string \<Rightarrow> faces \<Rightarrow> faces \<times> error option" where
  "apply_algorithm algorithm fs = apply_moves (str_split algorithm) fs"

definition reset :: "faces \<Rightarrow> faces" where
  "reset fs = solved_faces"

section \<open>solvers: the move list and the heuristic\<close>

definition basic_moves :: "string list" where
  \<comment> \<open>\<open>self.basic_moves\<close> of both solvers\<close>
  "basic_moves =
     [''F'', [CHR ''F'', CHR 0x27], ''B'', [CHR ''B'', CHR 0x27],
      ''U'', [CHR ''U'', CHR 0x27], ''D'', [CHR ''D'', CHR 0x27],
      ''L'', [CHR ''L'', CHR 0x27], ''R'', [CHR ''R'', CHR 0x27]]"

definition heuristic :: "faces \<Rightarrow> int" where
  \<comment> \<open>\<open>AStarSolver._heuristic\<close>: \<open>np.sum(cube.faces[face_idx] != center_color)\<close>
      counts the stickers of the face that differ from its centre\<close>
  "heuristic fs =
     foldl (\<lambda>misplaced face_idx.
              let center_color = fs ! face_idx ! 1 ! 1
              in misplaced
                 + int (length (filter (\<lambda>x. x \<noteq> center_color) (concat (fs ! face_idx)))))
       0 [0 ..< 6]"

section \<open>solvers: the store, state keys and path reconstruction\<close>

text \<open>
  A solver is handed a cube object of the caller and builds cubes of its own, so the
  arrays live in a store: an address is an index into the list of the arrays allocated so
  far.  \<open>RubiksCube()\<close>, \<open>np.copy\<close> and \<open>np.array\<close> allocate a new array, and
  \<open>apply_move\<close> on a cube overwrites the array its \<open>faces\<close> attribute refers to.  A
  solver assigns the attribute \<open>faces\<close> only on cubes it has just constructed, so a cube
  is identified with the address of its array.  The elapsed time, fourth component of a
  solver's result, is left out.
\<close>

type_synonym addr = nat
type_synonym store = "faces list"

definition alloc :: "faces \<Rightarrow> store \<Rightarrow> addr \<times> store" where
  "alloc v h = (length h, h @ [v])"

text \<open>
  \<open>_cube_state_to_hashable\<close> is \<open>tuple(tuple(tuple(face) for face in cube.faces))\<close>.
  There is one generator: it runs over the six faces, and \<open>tuple(face)\<close> of a 3 by 3
  array is the tuple of its three rows, each a one-dimensional numpy array.  The outer
  \<open>tuple\<close> is applied to a tuple and returns it.  The result is a tuple of six tuples of
  three arrays.  A numpy array has no hash (\<open>hash\<close> raises TypeError), and the hash of a
  tuple is computed from the hashes of its items.  The rows are views of an array that
  is not written after the key is built, so they are recorded by value.
\<close>

datatype pyobj = NdArray "color list" | Tuple "pyobj list"

fun hashable :: "pyobj \<Rightarrow> bool" where
  "hashable (NdArray xs) = False"
| "hashable (Tuple ts) = list_all hashable ts"

definition cube_state_to_hashable :: "faces \<Rightarrow> pyobj" where
  "cube_state_to_hashable fs = Tuple (map (\<lambda>face. Tuple (map NdArray face)) fs)"

definition decode :: "pyobj \<Rightarrow> faces" where
  "decode key =
     (case key of
        Tuple ts \<Rightarrow>
          map (\<lambda>t. case t of
                      Tuple rs \<Rightarrow> map (\<lambda>r. case r of NdArray xs \<Rightarrow> xs | Tuple _ \<Rightarrow> []) rs
                    | NdArray _ \<Rightarrow> []) ts
      | NdArray _ \<Rightarrow> [])"

definition np_array_reshape :: "pyobj \<Rightarrow> error + faces" where
  \<comment> \<open>\<open>np.array(current_state).reshape((6, 3, 3))\<close>, for the keys the solvers build: the
      key of an array of shape (6, 3, 3) gives that array back; for any other object the
      model raises the ValueError of a failed reshape\<close>
  "np_array_reshape key =
     (let fs = decode key
      in if wf_faces fs \<and> cube_state_to_hashable fs = key then Inr fs
         else Inl (ValueError ''cannot reshape array''))"

type_synonym result = "bool \<times> string list \<times> int"
type_synonym outcome = "(error + result) \<times> store"
type_synonym parents = "pyobj \<rightharpoonup> pyobj \<times> string"

text \<open>
  An outcome is the exception raised or the tuple returned, with the store at that
  moment.  A dictionary is a map and a set is a set; looking a key up, storing under it
  and adding it to a set hash the key first, and raise TypeError when it has no hash.
  \<open>_reconstruct_path\<close> follows the parent links for as long as there is one, so it is a
  partial function: None stands for a walk that never ends.
\<close>

partial_function (option) reconstruct_loop ::
  "pyobj \<Rightarrow> parents \<Rightarrow> string list \<Rightarrow> (error + string list) option" where
  "reconstruct_loop current came_from path =
     (if \<not> hashable current then Some (Inl TypeError)
      else case came_from current of
             None \<Rightarrow> Some (Inr (rev path))
           | Some (prev, move) \<Rightarrow> reconstruct_loop prev came_from (path @ [move]))"

declare reconstruct_loop.simps [code]

definition reconstruct_path :: "pyobj \<Rightarrow> parents \<Rightarrow> (error + string list) option" where
  "reconstruct_path current came_from = reconstruct_loop current came_from []"

section \<open>solvers/bfs_solver.py: class BFSSolver\<close>

type_synonym bfs_vars = "(pyobj \<times> int) list \<times> parents \<times> pyobj set \<times> store"

fun bfs_moves ::
  "string list \<Rightarrow> pyobj \<Rightarrow> int \<Rightarrow> int \<Rightarrow> bfs_vars \<Rightarrow> (outcome + bfs_vars) option" where
  \<comment> \<open>\<open>for move in self.basic_moves\<close>, from the move reached: Inl is a return or an
      exception inside the loop, Inr the variables when the loop is left at its end\<close>
  "bfs_moves [] current_state depth nodes_explored vars = Some (Inr vars)"
| "bfs_moves (move # moves) current_state depth nodes_explored (queue, came_from, visited, h) =
     (let (unused, h) = alloc solved_faces h
      in case np_array_reshape current_state of
           Inl e \<Rightarrow> Some (Inl (Inl e, h))
         | Inr fs \<Rightarrow>
            (let (new_cube, h) = alloc fs h
             in case apply_move move (h ! new_cube) of
                  Inl e \<Rightarrow> Some (Inl (Inl e, h))
                | Inr fs' \<Rightarrow>
                   (let h = h[new_cube := fs'];
                        new_state = cube_state_to_hashable (h ! new_cube)
                    in if is_solved (h ! new_cube) then
                         (if \<not> hashable new_state then Some (Inl (Inl TypeError, h))
                          else case reconstruct_path new_state
                                      (came_from(new_state \<mapsto> (current_state, move))) of
                                 None \<Rightarrow> None
                               | Some (Inl e) \<Rightarrow> Some (Inl (Inl e, h))
                               | Some (Inr solution) \<Rightarrow>
                                   Some (Inl (Inr (True, solution, nodes_explored), h)))
                       else if \<not> hashable new_state then Some (Inl (Inl TypeError, h))
                       else if new_state \<notin> visited then
                         bfs_moves moves current_state depth nodes_explored
                           (queue @ [(new_state, depth + 1)],
                            came_from(new_state \<mapsto> (current_state, move)),
                            insert new_state visited, h)
                       else bfs_moves moves current_state depth nodes_explored
                              (queue, came_from, visited, h))))"

partial_function (option) bfs_loop ::
  "int \<Rightarrow> (pyobj \<times> int) list \<Rightarrow> parents \<Rightarrow> pyobj set \<Rightarrow> int \<Rightarrow> store \<Rightarrow> outcome option" where
  \<comment> \<open>\<open>while queue\<close>\<close>
  "bfs_loop max_depth queue came_from visited nodes_explored h =
     (case queue of
        [] \<Rightarrow> Some (Inr (False, [], nodes_explored), h)
      | (current_state, depth) # queue \<Rightarrow>
          (let nodes_explored = nodes_explored + 1
           in if depth \<ge> max_depth then
                bfs_loop max_depth queue came_from visited nodes_explored h
              else case bfs_moves basic_moves current_state depth nodes_explored
                          (queue, came_from, visited, h) of
                     None \<Rightarrow> None
                   | Some (Inl out) \<Rightarrow> Some out
                   | Some (Inr (queue, came_from, visited, h)) \<Rightarrow>
                       bfs_loop max_depth queue came_from visited nodes_explored h))"

declare bfs_loop.simps [code]

definition bfs_solve :: "int \<Rightarrow> addr \<Rightarrow> store \<Rightarrow> outcome option" where
  \<comment> \<open>\<open>BFSSolver(max_depth).solve(cube)\<close>; the set display \<open>{...}\<close> that initialises
      \<open>visited\<close> hashes the key of the start state\<close>
  "bfs_solve max_depth cube h =
     (if is_solved (h ! cube) then Some (Inr (True, [], 0), h)
      else let (unused, h) = alloc solved_faces h;
               (cube_copy, h) = alloc (h ! cube) h;
               start = cube_state_to_hashable (h ! cube_copy);
               queue = [(start, 0)];
               came_from = Map.empty
           in if \<not> hashable start then Some (Inl TypeError, h)
              else bfs_loop max_depth queue came_from {start} 0 h)"

section \<open>solvers/astar_solver.py: class AStarSolver\<close>

text \<open>
  The open set is a heap of tuples \<open>(f_score, count, state, depth)\<close>.  \<open>heappop\<close> removes
  and returns the least tuple; tuples are compared by \<open>f_score\<close> and then by \<open>count\<close>,
  which differs between any two entries, so the open set is kept as a list and the
  least entry is searched for.
\<close>

type_synonym entry = "int \<times> int \<times> pyobj \<times> int"

definition entry_less :: "entry \<Rightarrow> entry \<Rightarrow> bool" where
  "entry_less a b \<longleftrightarrow> fst a < fst b \<or> (fst a = fst b \<and> fst (snd a) < fst (snd b))"

fun least_entry :: "entry \<Rightarrow> entry list \<Rightarrow> entry" where
  "least_entry e [] = e"
| "least_entry e (x # xs) = least_entry (if entry_less x e then x else e) xs"

definition heappop :: "entry \<Rightarrow> entry list \<Rightarrow> entry \<times> entry list" where
  \<comment> \<open>\<open>heapq.heappop\<close> of the non-empty open set \<open>x # xs\<close>\<close>
  "heappop x xs = (let e = least_entry x xs in (e, remove1 e (x # xs)))"

type_synonym astar_vars =
  "entry list \<times> parents \<times> (pyobj \<rightharpoonup> int) \<times> (pyobj \<rightharpoonup> int) \<times> pyobj set \<times> int \<times> store"

fun astar_moves ::
  "string list \<Rightarrow> pyobj \<Rightarrow> addr \<Rightarrow> int \<Rightarrow> astar_vars \<Rightarrow> outcome + astar_vars" where
  \<comment> \<open>\<open>for move in self.basic_moves\<close>; \<open>counter\<close> is the variable \<open>count\<close>, and
      \<open>g_score[current_state]\<close> raises KeyError when the key is absent\<close>
  "astar_moves [] current_state current_cube depth vars = Inr vars"
| "astar_moves (move # moves) current_state current_cube depth
       (open_set, came_from, g_score, f_score, visited, counter, h) =
     (let (unused, h) = alloc solved_faces h;
          (new_cube, h) = alloc (h ! current_cube) h
      in case apply_move move (h ! new_cube) of
           Inl e \<Rightarrow> Inl (Inl e, h)
         | Inr fs' \<Rightarrow>
            (let h = h[new_cube := fs'];
                 new_state = cube_state_to_hashable (h ! new_cube)
             in if \<not> hashable current_state then Inl (Inl TypeError, h)
                else case g_score current_state of
                       None \<Rightarrow> Inl (Inl KeyError, h)
                     | Some g \<Rightarrow>
                        (let tentative_g_score = g + 1
                         in if \<not> hashable new_state then Inl (Inl TypeError, h)
                            else if (case g_score new_state of
                                       None \<Rightarrow> True
                                     | Some g' \<Rightarrow> tentative_g_score < g') then
                              (let came_from = came_from(new_state \<mapsto> (current_state, move));
                                   g_score = g_score(new_state \<mapsto> tentative_g_score);
                                   new_h = heuristic (h ! new_cube);
                                   new_f = tentative_g_score + new_h;
                                   f_score = f_score(new_state \<mapsto> new_f)
                               in if new_state \<notin> visited then
                                    astar_moves moves current_state current_cube depth
                                      (open_set @ [(new_f, counter + 1, new_state, depth + 1)],
                                       came_from, g_score, f_score,
                                       insert new_state visited, counter + 1, h)
                                  else astar_moves moves current_state current_cube depth
                                         (open_set, came_from, g_score, f_score, visited,
                                          counter, h))
                            else astar_moves moves current_state current_cube depth
                                   (open_set, came_from, g_score, f_score, visited,
                                    counter, h))))"

partial_function (option) astar_loop ::
  "int \<Rightarrow> entry list \<Rightarrow> parents \<Rightarrow> (pyobj \<rightharpoonup> int) \<Rightarrow> (pyobj \<rightharpoonup> int) \<Rightarrow> pyobj set
     \<Rightarrow> int \<Rightarrow> int \<Rightarrow> store \<Rightarrow> outcome option" where
  \<comment> \<open>\<open>while open_set\<close>\<close>
  "astar_loop max_depth open_set came_from g_score f_score visited counter nodes_explored h =
     (case open_set of
        [] \<Rightarrow> Some (Inr (False, [], nodes_explored), h)
      | x # xs \<Rightarrow>
          (case heappop x xs of
             ((f, c, current_state, depth), open_set) \<Rightarrow>
               (let nodes_explored = nodes_explored + 1;
                    (unused, h) = alloc solved_faces h
                in case np_array_reshape current_state of
                     Inl e \<Rightarrow> Some (Inl e, h)
                   | Inr fs \<Rightarrow>
                      (case alloc fs h of
                         (current_cube, h) \<Rightarrow>
                           if is_solved (h ! current_cube) then
                             (case reconstruct_path current_state came_from of
                                None \<Rightarrow> None
                              | Some (Inl e) \<Rightarrow> Some (Inl e, h)
                              | Some (Inr solution) \<Rightarrow>
                                  Some (Inr (True, solution, nodes_explored), h))
                           else if depth \<ge> max_depth then
                             astar_loop max_depth open_set came_from g_score f_score visited
                               counter nodes_explored h
                           else
                             (case astar_moves basic_moves current_state current_cube depth
                                     (open_set, came_from, g_score, f_score, visited,
                                      counter, h) of
                                Inl out \<Rightarrow> Some out
                              | Inr (open_set, came_from, g_score, f_score, visited,
                                     counter, h) \<Rightarrow>
                                  astar_loop max_depth open_set came_from g_score f_score
                                    visited counter nodes_explored h)))))"

declare astar_loop.simps [code]

definition astar_solve :: "int \<Rightarrow> addr \<Rightarrow> store \<Rightarrow> outcome option" where
  \<comment> \<open>\<open>AStarSolver(max_depth).solve(cube)\<close>; the dictionary display that initialises
      \<open>g_score\<close> hashes the key of the start state\<close>
  "astar_solve max_depth cube h =
     (if is_solved (h ! cube) then Some (Inr (True, [], 0), h)
      else let (unused, h) = alloc solved_faces h;
               (cube_copy, h) = alloc (h ! cube) h;
               start_state = cube_state_to_hashable (h ! cube_copy);
               start_h = heuristic (h ! cube_copy);
               counter = 0;
               open_set = [(start_h, counter, start_state, 0)];
               came_from = Map.empty
           in if \<not> hashable start_state then Some (Inl TypeError, h)
              else astar_loop max_depth open_set came_from [start_state \<mapsto> 0]
                     [start_state \<mapsto> start_h] {start_state} counter 0 h)"

section \<open>Notions used to state the properties\<close>

definition stickers :: "faces \<Rightarrow> color list" where
  \<comment> \<open>the 54 stickers, face by face and row by row\<close>
  "stickers fs = concat (concat fs)"

definition centers :: "faces \<Rightarrow> color list" where
  \<comment> \<open>the sticker at position (1, 1) of each of the six faces\<close>
  "centers fs = map (\<lambda>face_idx. fs ! face_idx ! 1 ! 1) [0 ..< 6]"

inductive reachable :: "faces \<Rightarrow> bool" where
  \<comment> \<open>the arrays a cube can hold after any number of the twelve moves\<close>
  start: "reachable solved_faces"
| step: "reachable fs \<Longrightarrow> m \<in> set basic_moves \<Longrightarrow> apply_move m fs = Inr fs'
         \<Longrightarrow> reachable fs'"

definition sexy_move :: string where
  \<comment> \<open>the string \<open>R U R' U'\<close>\<close>
  "sexy_move = ''R U R' U'' @ [CHR 0x27]"

definition sexy_six :: string where
  \<comment> \<open>the string of test_apply_algorithm: \<open>R U R' U'\<close> six times, separated by spaces\<close>
  "sexy_six = sexy_move @ '' '' @ sexy_move @ '' '' @ sexy_move @ '' '' @ sexy_move @ '' ''
     @ sexy_move @ '' '' @ sexy_move"

definition mismatches :: "face \<Rightarrow> int" where
  \<comment> \<open>what one face adds to the heuristic\<close>
  "mismatches f = int (length (filter (\<lambda>x. x \<noteq> f ! 1 ! 1) (concat f)))"

definition extends :: "store \<Rightarrow> store \<Rightarrow> bool" where
  \<comment> \<open>\<open>h'\<close> holds every array of \<open>h\<close>, unchanged, and perhaps new ones after them\<close>
  "extends h h' \<longleftrightarrow> take (length h) h' = h"

section \<open>The shape of the array and the twelve moves as permutations\<close>

lemma length3_conv: "length xs = 3 \<longleftrightarrow> (\<exists>a b c. xs = [a, b, c])"
  by (auto simp: numeral_3_eq_3 length_Suc_conv)

lemma face_shape:
  assumes "length f = 3" and "list_all (\<lambda>r. length r = 3) f"
  shows "\<exists>a b c d e g h i j. f = [[a, b, c], [d, e, g], [h, i, j]]"
proof -
  from assms(1) obtain r1 r2 r3 where f: "f = [r1, r2, r3]"
    by (auto simp: length3_conv)
  with assms(2) have "length r1 = 3" "length r2 = 3" "length r3 = 3" by simp_all
  then show ?thesis unfolding f length3_conv by blast
qed

lemma wf_facesE:
  assumes "wf_faces fs"
  obtains a1 a2 a3 a4 a5 a6 a7 a8 a9 b1 b2 b3 b4 b5 b6 b7 b8 b9 c1 c2 c3 c4 c5 c6 c7 c8 c9 d1 d2 d3 d4 d5 d6 d7 d8 d9 e1 e2 e3 e4 e5 e6 e7 e8 e9 f1 f2 f3 f4 f5 f6 f7 f8 f9
  where "fs =
      [[[a1, a2, a3], [a4, a5, a6], [a7, a8, a9]],
      [[b1, b2, b3], [b4, b5, b6], [b7, b8, b9]],
      [[c1, c2, c3], [c4, c5, c6], [c7, c8, c9]],
      [[d1, d2, d3], [d4, d5, d6], [d7, d8, d9]],
      [[e1, e2, e3], [e4, e5, e6], [e7, e8, e9]],
      [[f1, f2, f3], [f4, f5, f6], [f7, f8, f9]]]"
proof -
  from assms have len: "length fs = 6"
    and shp: "list_all (\<lambda>f. length f = 3 \<and> list_all (\<lambda>r. length r = 3) f) fs"
    by (simp_all add: wf_faces_def)
  from len obtain fa0 fa1 fa2 fa3 fa4 fa5 where fs: "fs = [fa0, fa1, fa2, fa3, fa4, fa5]"
    by (auto simp: eval_nat_numeral length_Suc_conv)
  from shp have sh:
    "length fa0 = 3" "list_all (\<lambda>r. length r = 3) fa0"
    "length fa1 = 3" "list_all (\<lambda>r. length r = 3) fa1"
    "length fa2 = 3" "list_all (\<lambda>r. length r = 3) fa2"
    "length fa3 = 3" "list_all (\<lambda>r. length r = 3) fa3"
    "length fa4 = 3" "list_all (\<lambda>r. length r = 3) fa4"
    "length fa5 = 3" "list_all (\<lambda>r. length r = 3) fa5"
    unfolding fs by simp_all
  from face_shape [OF sh(1) sh(2)]
  obtain a1 a2 a3 a4 a5 a6 a7 a8 a9
    where fa0: "fa0 = [[a1, a2, a3], [a4, a5, a6], [a7, a8, a9]]"
    by blast
  from face_shape [OF sh(3) sh(4)]
  obtain b1 b2 b3 b4 b5 b6 b7 b8 b9
    where fa1: "fa1 = [[b1, b2, b3], [b4, b5, b6], [b7, b8, b9]]"
    by blast
  from face_shape [OF sh(5) sh(6)]
  obtain c1 c2 c3 c4 c5 c6 c7 c8 c9
    where fa2: "fa2 = [[c1, c2, c3], [c4, c5, c6], [c7, c8, c9]]"
    by blast
  from face_shape [OF sh(7) sh(8)]
  obtain d1 d2 d3 d4 d5 d6 d7 d8 d9
    where fa3: "fa3 = [[d1, d2, d3], [d4, d5, d6], [d7, d8, d9]]"
    by blast
  from face_shape [OF sh(9) sh(10)]
  obtain e1 e2 e3 e4 e5 e6 e7 e8 e9
    where fa4: "fa4 = [[e1, e2, e3], [e4, e5, e6], [e7, e8, e9]]"
    by blast
  from face_shape [OF sh(11) sh(12)]
  obtain f1 f2 f3 f4 f5 f6 f7 f8 f9
    where fa5: "fa5 = [[f1, f2, f3], [f4, f5, f6], [f7, f8, f9]]"
    by blast
  show thesis by (rule that) (unfold fs fa0 fa1 fa2 fa3 fa4 fa5, rule refl)
qed

lemma wf_faces_explicit:
  "wf_faces
     [[[a1, a2, a3], [a4, a5, a6], [a7, a8, a9]],
      [[b1, b2, b3], [b4, b5, b6], [b7, b8, b9]],
      [[c1, c2, c3], [c4, c5, c6], [c7, c8, c9]],
      [[d1, d2, d3], [d4, d5, d6], [d7, d8, d9]],
      [[e1, e2, e3], [e4, e5, e6], [e7, e8, e9]],
      [[f1, f2, f3], [f4, f5, f6], [f7, f8, f9]]]"
  by (simp add: wf_faces_def)

lemmas move_defs = move_F_def move_B_def move_U_def move_D_def move_L_def move_R_def
  shift_edges_def rotate_face_def rot90_def get_face_edge_def set_face_edge_def
  slice_from_def slice_to_def slice_bound_def

text \<open>
  Each move, evaluated on an array of 54 arbitrary stickers: the rotated face and the
  four strips on the neighbouring faces.
\<close>

lemma move_F_cw:
  "move_F False
     [[[a1, a2, a3], [a4, a5, a6], [a7, a8, a9]],
     [[b1, b2, b3], [b4, b5, b6], [b7, b8, b9]],
     [[c1, c2, c3], [c4, c5, c6], [c7, c8, c9]],
     [[d1, d2, d3], [d4, d5, d6], [d7, d8, d9]],
     [[e1, e2, e3], [e4, e5, e6], [e7, e8, e9]],
     [[f1, f2, f3], [f4, f5, f6], [f7, f8, f9]]] =
     [[[a3, a6, a9], [a2, a5, a8], [a1, a4, a7]],
     [[b1, b2, b3], [b4, b5, b6], [b7, b8, b9]],
     [[c1, c2, c3], [c4, c5, c6], [e9, e6, e3]],
     [[f7, f4, f1], [d4, d5, d6], [d7, d8, d9]],
     [[e1, e2, d1], [e4, e5, d2], [e7, e8, d3]],
     [[c7, f2, f3], [c8, f5, f6], [c9, f8, f9]]]"
  by (simp add: move_defs)

lemma move_F_prime:
  "move_F True
     [[[a1, a2, a3], [a4, a5, a6], [a7, a8, a9]],
     [[b1, b2, b3], [b4, b5, b6], [b7, b8, b9]],
     [[c1, c2, c3], [c4, c5, c6], [c7, c8, c9]],
     [[d1, d2, d3], [d4, d5, d6], [d7, d8, d9]],
     [[e1, e2, e3], [e4, e5, e6], [e7, e8, e9]],
     [[f1, f2, f3], [f4, f5, f6], [f7, f8, f9]]] =
     [[[a7, a4, a1], [a8, a5, a2], [a9, a6, a3]],
     [[b1, b2, b3], [b4, b5, b6], [b7, b8, b9]],
     [[c1, c2, c3], [c4, c5, c6], [f1, f4, f7]],
     [[e3, e6, e9], [d4, d5, d6], [d7, d8, d9]],
     [[e1, e2, c9], [e4, e5, c8], [e7, e8, c7]],
     [[d3, f2, f3], [d2, f5, f6], [d1, f8, f9]]]"
  by (simp add: move_defs)

lemma move_B_cw:
  "move_B False
     [[[a1, a2, a3], [a4, a5, a6], [a7, a8, a9]],
     [[b1, b2, b3], [b4, b5, b6], [b7, b8, b9]],
     [[c1, c2, c3], [c4, c5, c6], [c7, c8, c9]],
     [[d1, d2, d3], [d4, d5, d6], [d7, d8, d9]],
     [[e1, e2, e3], [e4, e5, e6], [e7, e8, e9]],
     [[f1, f2, f3], [f4, f5, f6], [f7, f8, f9]]] =
     [[[a1, a2, a3], [a4, a5, a6], [a7, a8, a9]],
     [[b3, b6, b9], [b2, b5, b8], [b1, b4, b7]],
     [[e7, e4, e1], [c4, c5, c6], [c7, c8, c9]],
     [[d1, d2, d3], [d4, d5, d6], [f9, f6, f3]],
     [[d7, e2, e3], [d8, e5, e6], [d9, e8, e9]],
     [[f1, f2, c1], [f4, f5, c2], [f7, f8, c3]]]"
  by (simp add: move_defs)

lemma move_B_prime:
  "move_B True
     [[[a1, a2, a3], [a4, a5, a6], [a7, a8, a9]],
     [[b1, b2, b3], [b4, b5, b6], [b7, b8, b9]],
     [[c1, c2, c3], [c4, c5, c6], [c7, c8, c9]],
     [[d1, d2, d3], [d4, d5, d6], [d7, d8, d9]],
     [[e1, e2, e3], [e4, e5, e6], [e7, e8, e9]],
     [[f1, f2, f3], [f4, f5, f6], [f7, f8, f9]]] =
     [[[a1, a2, a3], [a4, a5, a6], [a7, a8, a9]],
     [[b7, b4, b1], [b8, b5, b2], [b9, b6, b3]],
     [[f3, f6, f9], [c4, c5, c6], [c7, c8, c9]],
     [[d1, d2, d3], [d4, d5, d6], [e1, e4, e7]],
     [[c3, e2, e3], [c2, e5, e6], [c1, e8, e9]],
     [[f1, f2, d9], [f4, f5, d8], [f7, f8, d7]]]"
  by (simp add: move_defs)

lemma move_U_cw:
  "move_U False
     [[[a1, a2, a3], [a4, a5, a6], [a7, a8, a9]],
     [[b1, b2, b3], [b4, b5, b6], [b7, b8, b9]],
     [[c1, c2, c3], [c4, c5, c6], [c7, c8, c9]],
     [[d1, d2, d3], [d4, d5, d6], [d7, d8, d9]],
     [[e1, e2, e3], [e4, e5, e6], [e7, e8, e9]],
     [[f1, f2, f3], [f4, f5, f6], [f7, f8, f9]]] =
     [[[e1, e2, e3], [a4, a5, a6], [a7, a8, a9]],
     [[f1, f2, f3], [b4, b5, b6], [b7, b8, b9]],
     [[c3, c6, c9], [c2, c5, c8], [c1, c4, c7]],
     [[d1, d2, d3], [d4, d5, d6], [d7, d8, d9]],
     [[b1, b2, b3], [e4, e5, e6], [e7, e8, e9]],
     [[a1, a2, a3], [f4, f5, f6], [f7, f8, f9]]]"
  by (simp add: move_defs)

lemma move_U_prime:
  "move_U True
     [[[a1, a2, a3], [a4, a5, a6], [a7, a8, a9]],
     [[b1, b2, b3], [b4, b5, b6], [b7, b8, b9]],
     [[c1, c2, c3], [c4, c5, c6], [c7, c8, c9]],
     [[d1, d2, d3], [d4, d5, d6], [d7, d8, d9]],
     [[e1, e2, e3], [e4, e5, e6], [e7, e8, e9]],
     [[f1, f2, f3], [f4, f5, f6], [f7, f8, f9]]] =
     [[[f1, f2, f3], [a4, a5, a6], [a7, a8, a9]],
     [[e1, e2, e3], [b4, b5, b6], [b7, b8, b9]],
     [[c7, c4, c1], [c8, c5, c2], [c9, c6, c3]],
     [[d1, d2, d3], [d4, d5, d6], [d7, d8, d9]],
     [[a1, a2, a3], [e4, e5, e6], [e7, e8, e9]],
     [[b1, b2, b3], [f4, f5, f6], [f7, f8, f9]]]"
  by (simp add: move_defs)

lemma move_D_cw:
  "move_D False
     [[[a1, a2, a3], [a4, a5, a6], [a7, a8, a9]],
     [[b1, b2, b3], [b4, b5, b6], [b7, b8, b9]],
     [[c1, c2, c3], [c4, c5, c6], [c7, c8, c9]],
     [[d1, d2, d3], [d4, d5, d6], [d7, d8, d9]],
     [[e1, e2, e3], [e4, e5, e6], [e7, e8, e9]],
     [[f1, f2, f3], [f4, f5, f6], [f7, f8, f9]]] =
     [[[a1, a2, a3], [a4, a5, a6], [f7, f8, f9]],
     [[b1, b2, b3], [b4, b5, b6], [e7, e8, e9]],
     [[c1, c2, c3], [c4, c5, c6], [c7, c8, c9]],
     [[d3, d6, d9], [d2, d5, d8], [d1, d4, d7]],
     [[e1, e2, e3], [e4, e5, e6], [a7, a8, a9]],
     [[f1, f2, f3], [f4, f5, f6], [b7, b8, b9]]]"
  by (simp add: move_defs)

lemma move_D_prime:
  "move_D True
     [[[a1, a2, a3], [a4, a5, a6], [a7, a8, a9]],
     [[b1, b2, b3], [b4, b5, b6], [b7, b8, b9]],
     [[c1, c2, c3], [c4, c5, c6], [c7, c8, c9]],
     [[d1, d2, d3], [d4, d5, d6], [d7, d8, d9]],
     [[e1, e2, e3], [e4, e5, e6], [e7, e8, e9]],
     [[f1, f2, f3], [f4, f5, f6], [f7, f8, f9]]] =
     [[[a1, a2, a3], [a4, a5, a6], [e7, e8, e9]],
     [[b1, b2, b3], [b4, b5, b6], [f7, f8, f9]],
     [[c1, c2, c3], [c4, c5, c6], [c7, c8, c9]],
     [[d7, d4, d1], [d8, d5, d2], [d9, d6, d3]],
     [[e1, e2, e3], [e4, e5, e6], [b7, b8, b9]],
     [[f1, f2, f3], [f4, f5, f6], [a7, a8, a9]]]"
  by (simp add: move_defs)

lemma move_L_cw:
  "move_L False
     [[[a1, a2, a3], [a4, a5, a6], [a7, a8, a9]],
     [[b1, b2, b3], [b4, b5, b6], [b7, b8, b9]],
     [[c1, c2, c3], [c4, c5, c6], [c7, c8, c9]],
     [[d1, d2, d3], [d4, d5, d6], [d7, d8, d9]],
     [[e1, e2, e3], [e4, e5, e6], [e7, e8, e9]],
     [[f1, f2, f3], [f4, f5, f6], [f7, f8, f9]]] =
     [[[d1, a2, a3], [d4, a5, a6], [d7, a8, a9]],
     [[b1, b2, c7], [b4, b5, c4], [b7, b8, c1]],
     [[a1, c2, c3], [a4, c5, c6], [a7, c8, c9]],
     [[b9, d2, d3], [b6, d5, d6], [b3, d8, d9]],
     [[e3, e6, e9], [e2, e5, e8], [e1, e4, e7]],
     [[f1, f2, f3], [f4, f5, f6], [f7, f8, f9]]]"
  by (simp add: move_defs)

lemma move_L_prime:
  "move_L True
     [[[a1, a2, a3], [a4, a5, a6], [a7, a8, a9]],
     [[b1, b2, b3], [b4, b5, b6], [b7, b8, b9]],
     [[c1, c2, c3], [c4, c5, c6], [c7, c8, c9]],
     [[d1, d2, d3], [d4, d5, d6], [d7, d8, d9]],
     [[e1, e2, e3], [e4, e5, e6], [e7, e8, e9]],
     [[f1, f2, f3], [f4, f5, f6], [f7, f8, f9]]] =
     [[[c1, a2, a3], [c4, a5, a6], [c7, a8, a9]],
     [[b1, b2, d7], [b4, b5, d4], [b7, b8, d1]],
     [[b9, c2, c3], [b6, c5, c6], [b3, c8, c9]],
     [[a1, d2, d3], [a4, d5, d6], [a7, d8, d9]],
     [[e7, e4, e1], [e8, e5, e2], [e9, e6, e3]],
     [[f1, f2, f3], [f4, f5, f6], [f7, f8, f9]]]"
  by (simp add: move_defs)

lemma move_R_cw:
  "move_R False
     [[[a1, a2, a3], [a4, a5, a6], [a7, a8, a9]],
     [[b1, b2, b3], [b4, b5, b6], [b7, b8, b9]],
     [[c1, c2, c3], [c4, c5, c6], [c7, c8, c9]],
     [[d1, d2, d3], [d4, d5, d6], [d7, d8, d9]],
     [[e1, e2, e3], [e4, e5, e6], [e7, e8, e9]],
     [[f1, f2, f3], [f4, f5, f6], [f7, f8, f9]]] =
     [[[a1, a2, c3], [a4, a5, c6], [a7, a8, c9]],
     [[d9, b2, b3], [d6, b5, b6], [d3, b8, b9]],
     [[c1, c2, b7], [c4, c5, b4], [c7, c8, b1]],
     [[d1, d2, a3], [d4, d5, a6], [d7, d8, a9]],
     [[e1, e2, e3], [e4, e5, e6], [e7, e8, e9]],
     [[f3, f6, f9], [f2, f5, f8], [f1, f4, f7]]]"
  by (simp add: move_defs)

lemma move_R_prime:
  "move_R True
     [[[a1, a2, a3], [a4, a5, a6], [a7, a8, a9]],
     [[b1, b2, b3], [b4, b5, b6], [b7, b8, b9]],
     [[c1, c2, c3], [c4, c5, c6], [c7, c8, c9]],
     [[d1, d2, d3], [d4, d5, d6], [d7, d8, d9]],
     [[e1, e2, e3], [e4, e5, e6], [e7, e8, e9]],
     [[f1, f2, f3], [f4, f5, f6], [f7, f8, f9]]] =
     [[[a1, a2, d3], [a4, a5, d6], [a7, a8, d9]],
     [[c9, b2, b3], [c6, b5, b6], [c3, b8, b9]],
     [[c1, c2, a3], [c4, c5, a6], [c7, c8, a9]],
     [[d1, d2, b7], [d4, d5, b4], [d7, d8, b1]],
     [[e1, e2, e3], [e4, e5, e6], [e7, e8, e9]],
     [[f7, f4, f1], [f8, f5, f2], [f9, f6, f3]]]"
  by (simp add: move_defs)

lemmas move_explicit =
  move_F_cw move_F_prime move_B_cw move_B_prime
  move_U_cw move_U_prime move_D_cw move_D_prime
  move_L_cw move_L_prime move_R_cw move_R_prime

section \<open>Properties of cube.py\<close>

lemma apply_move_tokens:
  "apply_move ''F'' fs = Inr (move_F False fs)"
  "apply_move [CHR ''F'', CHR 0x27] fs = Inr (move_F True fs)"
  "apply_move ''B'' fs = Inr (move_B False fs)"
  "apply_move [CHR ''B'', CHR 0x27] fs = Inr (move_B True fs)"
  "apply_move ''U'' fs = Inr (move_U False fs)"
  "apply_move [CHR ''U'', CHR 0x27] fs = Inr (move_U True fs)"
  "apply_move ''D'' fs = Inr (move_D False fs)"
  "apply_move [CHR ''D'', CHR 0x27] fs = Inr (move_D True fs)"
  "apply_move ''L'' fs = Inr (move_L False fs)"
  "apply_move [CHR ''L'', CHR 0x27] fs = Inr (move_L True fs)"
  "apply_move ''R'' fs = Inr (move_R False fs)"
  "apply_move [CHR ''R'', CHR 0x27] fs = Inr (move_R True fs)"
  by (simp_all add: apply_move_def str_strip_def is_space_def)

lemma move_undo:
  "wf_faces fs \<Longrightarrow>
    move_F True (move_F False fs) = fs \<and> move_F False (move_F True fs) = fs \<and>
    move_B True (move_B False fs) = fs \<and> move_B False (move_B True fs) = fs \<and>
    move_U True (move_U False fs) = fs \<and> move_U False (move_U True fs) = fs \<and>
    move_D True (move_D False fs) = fs \<and> move_D False (move_D True fs) = fs \<and>
    move_L True (move_L False fs) = fs \<and> move_L False (move_L True fs) = fs \<and>
    move_R True (move_R False fs) = fs \<and> move_R False (move_R True fs) = fs"
  by (erule wf_facesE) (simp add: move_explicit)

lemma move_four:
  "wf_faces fs \<Longrightarrow>
    move_F p (move_F p (move_F p (move_F p fs))) = fs \<and>
    move_B p (move_B p (move_B p (move_B p fs))) = fs \<and>
    move_U p (move_U p (move_U p (move_U p fs))) = fs \<and>
    move_D p (move_D p (move_D p (move_D p fs))) = fs \<and>
    move_L p (move_L p (move_L p (move_L p fs))) = fs \<and>
    move_R p (move_R p (move_R p (move_R p fs))) = fs"
  by (erule wf_facesE, cases p) (simp_all add: move_explicit)

lemma wf_move:
  "wf_faces fs \<Longrightarrow>
    wf_faces (move_F p fs) \<and> wf_faces (move_B p fs) \<and> wf_faces (move_U p fs) \<and>
    wf_faces (move_D p fs) \<and> wf_faces (move_L p fs) \<and> wf_faces (move_R p fs)"
  by (erule wf_facesE, cases p) (simp_all add: move_explicit wf_faces_explicit)

lemma face_letters: "x \<in> set ''FBUDLR'' \<longleftrightarrow>
    x = CHR ''F'' \<or> x = CHR ''B'' \<or> x = CHR ''U'' \<or> x = CHR ''D'' \<or> x = CHR ''L'' \<or> x = CHR ''R''"
  by auto

lemma solved_faces_explicit:
  "solved_faces =
     [[[0, 0, 0], [0, 0, 0], [0, 0, 0]], [[1, 1, 1], [1, 1, 1], [1, 1, 1]],
      [[2, 2, 2], [2, 2, 2], [2, 2, 2]], [[3, 3, 3], [3, 3, 3], [3, 3, 3]],
      [[4, 4, 4], [4, 4, 4], [4, 4, 4]], [[5, 5, 5], [5, 5, 5], [5, 5, 5]]]"
  by (simp add: solved_faces_def upt_rec numeral_3_eq_3)

lemma wf_solved: "wf_faces solved_faces"
  unfolding solved_faces_explicit by (rule wf_faces_explicit)

text \<open>
  C2: for every cube state and every one of the twelve moves, the move followed by its
  inverse (the same face letter with the apostrophe added or removed) gives back the
  original array, and so does the same move applied four times.
\<close>

theorem move_inverse_and_fourfold:
  assumes "wf_faces fs" and "x \<in> set ''FBUDLR''"
  shows "apply_moves [[x], [x, CHR 0x27]] fs = (fs, None) \<and>
         apply_moves [[x, CHR 0x27], [x]] fs = (fs, None) \<and>
         apply_moves [[x], [x], [x], [x]] fs = (fs, None) \<and>
         apply_moves [[x, CHR 0x27], [x, CHR 0x27], [x, CHR 0x27], [x, CHR 0x27]] fs
           = (fs, None)"
  using assms(2) move_undo [OF assms(1)] move_four [OF assms(1), of True]
    move_four [OF assms(1), of False]
  unfolding face_letters
  by (elim disjE) (simp_all add: apply_move_tokens)

theorem move_inverse_and_fourfold_witness:
  "wf_faces (move_U False solved_faces) \<and> CHR ''R'' \<in> set ''FBUDLR'' \<and>
   apply_moves [''R'', [CHR ''R'', CHR 0x27]] (move_U False solved_faces)
     = (move_U False solved_faces, None) \<and>
   apply_moves [''R'', ''R'', ''R'', ''R''] (move_U False solved_faces)
     = (move_U False solved_faces, None)"
  using move_inverse_and_fourfold [of "move_U False solved_faces" "CHR ''R''"]
    wf_move [OF wf_solved, of False]
  by simp

lemma is_space_chars:
  "is_space CHR '' ''" "\<not> is_space CHR ''R''" "\<not> is_space CHR ''U''"
  "\<not> is_space CHR ''X''" "\<not> is_space CHR ''F''" "\<not> is_space CHR 0x27"
  by (simp_all add: is_space_def)

lemma split_sexy_move:
  "str_split sexy_move = [''R'', ''U'', [CHR ''R'', CHR 0x27], [CHR ''U'', CHR 0x27]]"
  by (simp add: str_split_def sexy_move_def is_space_chars)

lemma split_sexy_six:
  "str_split sexy_six =
     [''R'', ''U'', [CHR ''R'', CHR 0x27], [CHR ''U'', CHR 0x27],
      ''R'', ''U'', [CHR ''R'', CHR 0x27], [CHR ''U'', CHR 0x27],
      ''R'', ''U'', [CHR ''R'', CHR 0x27], [CHR ''U'', CHR 0x27],
      ''R'', ''U'', [CHR ''R'', CHR 0x27], [CHR ''U'', CHR 0x27],
      ''R'', ''U'', [CHR ''R'', CHR 0x27], [CHR ''U'', CHR 0x27],
      ''R'', ''U'', [CHR ''R'', CHR 0x27], [CHR ''U'', CHR 0x27]]"
  by (simp add: str_split_def sexy_six_def sexy_move_def is_space_chars)

lemma is_solved_solved: "is_solved solved_faces"
  by (simp add: is_solved_def solved_faces_explicit)

lemma sexy_once:
  "apply_algorithm sexy_move solved_faces =
     ([[[5, 5, 0], [0, 0, 0], [0, 0, 0]], [[3, 1, 1], [2, 1, 1], [1, 1, 1]],
       [[2, 2, 1], [2, 2, 1], [2, 2, 4]], [[3, 3, 3], [3, 3, 3], [3, 3, 5]],
       [[4, 4, 0], [4, 4, 4], [4, 4, 4]], [[2, 5, 5], [5, 5, 0], [5, 5, 2]]], None)"
  by (simp add: apply_algorithm_def split_sexy_move apply_move_tokens
      solved_faces_explicit move_explicit)

text \<open>
  C3: from the solved cube, \<open>R U R' U'\<close> applied six times in a row (as one string of
  24 tokens, or as six calls of apply_algorithm) raises nothing and leaves a cube for
  which is_solved holds.
\<close>

theorem sexy_move_six_times:
  "snd (apply_algorithm sexy_six solved_faces) = None \<and>
   is_solved (fst (apply_algorithm sexy_six solved_faces)) \<and>
   is_solved (((\<lambda>fs. fst (apply_algorithm sexy_move fs)) ^^ 6) solved_faces)"
proof -
  have one: "apply_algorithm sexy_six solved_faces = (solved_faces, None)"
    by (simp add: apply_algorithm_def split_sexy_six apply_move_tokens)
       (simp add: solved_faces_explicit move_explicit)
  have six: "((\<lambda>fs. fst (apply_algorithm sexy_move fs)) ^^ 6) solved_faces = solved_faces"
    by (simp add: eval_nat_numeral apply_algorithm_def split_sexy_move apply_move_tokens)
       (simp add: solved_faces_explicit move_explicit)
  show ?thesis by (simp add: one six is_solved_solved)
qed

text \<open>
  C6: a token that is not a face letter with at most one apostrophe should be refused.
  The token \<open>F'x\<close> is accepted: once the second character is an apostrophe only the
  first character is kept, and the cube is turned by \<open>F'\<close>.
\<close>

theorem apply_move_accepts_trailing_characters:
  "apply_move ''F'x'' solved_faces = Inr (move_F True solved_faces)"
  by (simp add: apply_move_def str_strip_def is_space_def)

lemma apply_move_rejects_Fx: "apply_move ''Fx'' solved_faces = Inl (ValueError ''Invalid move: Fx'')"
  by (simp add: apply_move_def str_strip_def is_space_def)

lemma apply_moves_append:
  "apply_moves pre fs = (fs1, None) \<Longrightarrow> apply_moves (pre @ rest) fs = apply_moves rest fs1"
  by (induction pre arbitrary: fs) (auto split: sum.splits)

text \<open>
  C7: apply_algorithm applies the tokens from left to right; when the tokens \<open>pre\<close>
  are applied without error and the next token \<open>bad\<close> is refused, the call raises the
  error of \<open>bad\<close> and the cube is left as the moves of \<open>pre\<close> made it: nothing is
  rolled back and the tokens after \<open>bad\<close> are not looked at.
\<close>

theorem apply_algorithm_fail_fast:
  assumes "str_split algorithm = pre @ bad # post"
    and "apply_moves pre fs = (fs1, None)"
    and "apply_move bad fs1 = Inl e"
  shows "apply_algorithm algorithm fs = (fs1, Some e)"
  using assms by (simp add: apply_algorithm_def apply_moves_append)

theorem apply_algorithm_fail_fast_witness:
  "apply_algorithm ''R U X F'' solved_faces
     = (move_U False (move_R False solved_faces), Some (ValueError ''Invalid move: X''))"
proof -
  have h1: "str_split ''R U X F'' = [''R'', ''U''] @ ''X'' # [''F'']"
    by (simp add: str_split_def is_space_chars)
  have h2: "apply_moves [''R'', ''U''] solved_faces
              = (move_U False (move_R False solved_faces), None)"
    by (simp add: apply_move_tokens)
  have h3: "apply_move ''X'' (move_U False (move_R False solved_faces))
              = Inl (ValueError ''Invalid move: X'')"
    by (simp add: apply_move_def str_strip_def is_space_chars)
  show ?thesis by (rule apply_algorithm_fail_fast [OF h1 h2 h3])
qed

lemma basic_moves_cases:
  "m \<in> set basic_moves \<longleftrightarrow>
     m = ''F'' \<or> m = [CHR ''F'', CHR 0x27] \<or> m = ''B'' \<or> m = [CHR ''B'', CHR 0x27] \<or>
     m = ''U'' \<or> m = [CHR ''U'', CHR 0x27] \<or> m = ''D'' \<or> m = [CHR ''D'', CHR 0x27] \<or>
     m = ''L'' \<or> m = [CHR ''L'', CHR 0x27] \<or> m = ''R'' \<or> m = [CHR ''R'', CHR 0x27]"
  by (simp add: basic_moves_def)

lemma upt_6: "[0 ..< 6] = [0, 1, 2, 3, 4, 5]"
  by (simp add: upt_rec)

lemma move_centers:
  "wf_faces fs \<Longrightarrow>
    centers (move_F p fs) = centers fs \<and> centers (move_B p fs) = centers fs \<and>
    centers (move_U p fs) = centers fs \<and> centers (move_D p fs) = centers fs \<and>
    centers (move_L p fs) = centers fs \<and> centers (move_R p fs) = centers fs"
  by (erule wf_facesE, cases p) (simp_all add: move_explicit centers_def upt_6)

text \<open>
  C9: each of the twelve moves leaves the centre sticker, position (1, 1), of all six
  faces as it was.
\<close>

theorem moves_keep_centers:
  assumes "wf_faces fs" and "m \<in> set basic_moves"
  shows "\<exists>fs'. apply_move m fs = Inr fs' \<and> centers fs' = centers fs"
  using assms(2) move_centers [OF assms(1), of True] move_centers [OF assms(1), of False]
  unfolding basic_moves_cases
  by (elim disjE) (simp_all add: apply_move_tokens)

theorem moves_keep_centers_witness:
  "wf_faces (move_U False solved_faces) \<and> ''R'' \<in> set basic_moves \<and>
   (\<exists>fs'. apply_move ''R'' (move_U False solved_faces) = Inr fs' \<and>
      centers fs' = centers (move_U False solved_faces))"
proof -
  have w: "wf_faces (move_U False solved_faces)"
    using wf_move [OF wf_solved, of False] by simp
  have b: "''R'' \<in> set basic_moves"
    by (simp add: basic_moves_def)
  from moves_keep_centers [OF w b] w b show ?thesis by simp
qed

lemma move_stickers:
  "wf_faces fs \<Longrightarrow>
    mset (stickers (move_F p fs)) = mset (stickers fs) \<and>
    mset (stickers (move_B p fs)) = mset (stickers fs) \<and>
    mset (stickers (move_U p fs)) = mset (stickers fs) \<and>
    mset (stickers (move_D p fs)) = mset (stickers fs) \<and>
    mset (stickers (move_L p fs)) = mset (stickers fs) \<and>
    mset (stickers (move_R p fs)) = mset (stickers fs)"
  by (erule wf_facesE, cases p) (simp_all add: move_explicit stickers_def)

lemma apply_move_basic:
  assumes "wf_faces fs" and "m \<in> set basic_moves"
  shows "\<exists>fs'. apply_move m fs = Inr fs' \<and> wf_faces fs'
           \<and> mset (stickers fs') = mset (stickers fs)"
  using assms(2) move_stickers [OF assms(1), of True] move_stickers [OF assms(1), of False]
    wf_move [OF assms(1), of True] wf_move [OF assms(1), of False]
  unfolding basic_moves_cases
  by (elim disjE) (simp_all add: apply_move_tokens)

lemma reachable_stickers:
  "reachable fs \<Longrightarrow> wf_faces fs \<and> mset (stickers fs) = mset (stickers solved_faces)"
proof (induction rule: reachable.induct)
  case start
  show ?case by (simp add: wf_solved)
next
  case (step fs m fs')
  with apply_move_basic [of fs m] show ?case by auto
qed

lemma solved_counts:
  "c \<in> {0, 1, 2, 3, 4, 5} \<Longrightarrow> count (mset (stickers solved_faces)) c = 9"
  by (auto simp: solved_faces_explicit stickers_def)

text \<open>
  C4: each of the twelve moves leaves the multiset of the 54 stickers unchanged, and in
  every state reachable from the solved cube each of the six colours occurs exactly nine
  times.
\<close>

theorem sticker_conservation:
  "(wf_faces fs \<and> m \<in> set basic_moves \<longrightarrow>
      (\<exists>fs'. apply_move m fs = Inr fs' \<and> mset (stickers fs') = mset (stickers fs))) \<and>
   (reachable fs \<longrightarrow> (\<forall>c \<in> {0, 1, 2, 3, 4, 5}. count (mset (stickers fs)) c = 9))"
  using apply_move_basic [of fs m] reachable_stickers [of fs] solved_counts
  by auto

theorem sticker_conservation_witness:
  "wf_faces (move_F False solved_faces) \<and> ''R'' \<in> set basic_moves \<and>
   reachable (move_F False solved_faces) \<and>
   (\<exists>fs'. apply_move ''R'' (move_F False solved_faces) = Inr fs' \<and>
      mset (stickers fs') = mset (stickers (move_F False solved_faces))) \<and>
   count (mset (stickers (move_F False solved_faces))) 0 = 9 \<and>
   count (mset (stickers (move_F False solved_faces))) 1 = 9 \<and>
   count (mset (stickers (move_F False solved_faces))) 2 = 9 \<and>
   count (mset (stickers (move_F False solved_faces))) 3 = 9 \<and>
   count (mset (stickers (move_F False solved_faces))) 4 = 9 \<and>
   count (mset (stickers (move_F False solved_faces))) 5 = 9"
proof -
  have w: "wf_faces (move_F False solved_faces)"
    using wf_move [OF wf_solved, of False] by simp
  have b: "''R'' \<in> set basic_moves" "''F'' \<in> set basic_moves"
    by (simp_all add: basic_moves_def)
  have r: "reachable (move_F False solved_faces)"
    by (rule reachable.step [OF reachable.start b(2)]) (simp add: apply_move_tokens)
  from sticker_conservation [of "move_F False solved_faces" "''R''"] w b(1) r
  show ?thesis by simp
qed

lemma heuristic_sum:
  "heuristic [f0, f1, f2, f3, f4, f5] =
     mismatches f0 + mismatches f1 + mismatches f2 + mismatches f3 + mismatches f4
       + mismatches f5"
  by (simp add: heuristic_def upt_6 mismatches_def)

lemma mismatches_nonneg: "0 \<le> mismatches f"
  by (simp add: mismatches_def)

lemma mismatches_zero:
  "mismatches [[a, b, c], [d, e, g], [h, i, j]] = 0 \<longleftrightarrow>
     list_all (list_all (\<lambda>x. x = a)) [[a, b, c], [d, e, g], [h, i, j]]"
  by (auto simp: mismatches_def filter_empty_conv)

text \<open>
  C5: for every cube state the heuristic of the A* solver is zero if and only if
  is_solved holds.
\<close>

theorem heuristic_zero_iff_solved:
  assumes "wf_faces fs"
  shows "heuristic fs = 0 \<longleftrightarrow> is_solved fs"
proof -
  from assms obtain f0 f1 f2 f3 f4 f5 where fs: "fs = [f0, f1, f2, f3, f4, f5]"
    by (elim wf_facesE) simp
  from assms have shp:
    "\<exists>a b c d e g h i j. f0 = [[a, b, c], [d, e, g], [h, i, j]]"
    "\<exists>a b c d e g h i j. f1 = [[a, b, c], [d, e, g], [h, i, j]]"
    "\<exists>a b c d e g h i j. f2 = [[a, b, c], [d, e, g], [h, i, j]]"
    "\<exists>a b c d e g h i j. f3 = [[a, b, c], [d, e, g], [h, i, j]]"
    "\<exists>a b c d e g h i j. f4 = [[a, b, c], [d, e, g], [h, i, j]]"
    "\<exists>a b c d e g h i j. f5 = [[a, b, c], [d, e, g], [h, i, j]]"
    unfolding fs wf_faces_def by (simp_all add: face_shape)
  have uni: "mismatches f = 0 \<longleftrightarrow> list_all (list_all (\<lambda>x. x = f ! 0 ! 0)) f"
    if "\<exists>a b c d e g h i j. f = [[a, b, c], [d, e, g], [h, i, j]]" for f
  proof -
    from that obtain a b c d e g h i j where f: "f = [[a, b, c], [d, e, g], [h, i, j]]"
      by blast
    show ?thesis unfolding f using mismatches_zero [of a b c d e g h i j] by simp
  qed
  have "heuristic fs = 0 \<longleftrightarrow>
      mismatches f0 = 0 \<and> mismatches f1 = 0 \<and> mismatches f2 = 0 \<and>
      mismatches f3 = 0 \<and> mismatches f4 = 0 \<and> mismatches f5 = 0"
    unfolding fs heuristic_sum
    using mismatches_nonneg [of f0] mismatches_nonneg [of f1] mismatches_nonneg [of f2]
      mismatches_nonneg [of f3] mismatches_nonneg [of f4] mismatches_nonneg [of f5]
    by linarith
  also have "\<dots> \<longleftrightarrow> is_solved fs"
    unfolding fs is_solved_def by (simp add: uni shp)
  finally show ?thesis .
qed

theorem heuristic_zero_iff_solved_witness:
  "wf_faces solved_faces \<and> wf_faces (move_F False solved_faces) \<and>
   heuristic solved_faces = 0 \<and> is_solved solved_faces \<and>
   heuristic (move_F False solved_faces) \<noteq> 0 \<and> \<not> is_solved (move_F False solved_faces)"
proof -
  have w: "wf_faces (move_F False solved_faces)"
    using wf_move [OF wf_solved, of False] by simp
  have n: "\<not> is_solved (move_F False solved_faces)"
    by (simp add: solved_faces_explicit move_explicit is_solved_def)
  from heuristic_zero_iff_solved [OF wf_solved] heuristic_zero_iff_solved [OF w]
    wf_solved w n is_solved_solved
  show ?thesis by simp
qed

section \<open>Properties of the solvers\<close>

lemma unhashable_key: "wf_faces fs \<Longrightarrow> \<not> hashable (cube_state_to_hashable fs)"
  by (erule wf_facesE) (simp add: cube_state_to_hashable_def)

lemma bfs_solve_unsolved:
  assumes "wf_faces (h ! cube)" and "\<not> is_solved (h ! cube)" and "cube < length h"
  shows "bfs_solve max_depth cube h = Some (Inl TypeError, h @ [solved_faces, h ! cube])"
  using assms unhashable_key [OF assms(1)]
  by (simp add: bfs_solve_def alloc_def nth_append)

lemma astar_solve_unsolved:
  assumes "wf_faces (h ! cube)" and "\<not> is_solved (h ! cube)" and "cube < length h"
  shows "astar_solve max_depth cube h = Some (Inl TypeError, h @ [solved_faces, h ! cube])"
  using assms unhashable_key [OF assms(1)]
  by (simp add: astar_solve_def alloc_def nth_append)

lemma not_solved_F: "\<not> is_solved (move_F False solved_faces)"
  by (simp add: solved_faces_explicit move_explicit is_solved_def)

lemma wf_F: "wf_faces (move_F False solved_faces)"
  using wf_move [OF wf_solved, of False] by simp

text \<open>
  C1: for a cube whose distance to a solved state is k, with k at most the depth bound,
  BFSSolver.solve should return found = true and k moves.  The cube one move \<open>F\<close> away
  from the solved cube is not solved and \<open>F'\<close> solves it, so k = 1; with the bound 5 the
  call raises TypeError when the visited set is initialised, after the two arrays of
  \<open>cube_copy\<close> have been allocated, and nothing is returned.
\<close>

theorem bfs_solve_raises_one_move_from_solved:
  "\<not> is_solved (move_F False solved_faces) \<and>
   apply_move [CHR ''F'', CHR 0x27] (move_F False solved_faces) = Inr solved_faces \<and>
   is_solved solved_faces \<and>
   bfs_solve 5 0 [move_F False solved_faces] =
     Some (Inl TypeError,
           [move_F False solved_faces, solved_faces, move_F False solved_faces])"
  using bfs_solve_unsolved [of "[move_F False solved_faces]" 0 5] move_undo [OF wf_solved]
  by (simp add: not_solved_F wf_F is_solved_solved apply_move_tokens)

text \<open>
  C8: for an input cube for which is_solved holds at entry, both solvers return found =
  true, no moves and zero explored nodes.  No search is made: no array is allocated
  and the store is the one at entry.
\<close>

theorem solved_input_returns_at_once:
  assumes "is_solved (h ! cube)"
  shows "bfs_solve max_depth cube h = Some (Inr (True, [], 0), h) \<and>
         astar_solve max_depth cube h = Some (Inr (True, [], 0), h)"
  using assms by (simp add: bfs_solve_def astar_solve_def)

theorem solved_input_returns_at_once_witness:
  "is_solved ([solved_faces] ! 0) \<and>
   bfs_solve 5 0 [solved_faces] = Some (Inr (True, [], 0), [solved_faces]) \<and>
   astar_solve 8 0 [solved_faces] = Some (Inr (True, [], 0), [solved_faces])"
proof -
  have s: "is_solved ([solved_faces] ! 0)" by (simp add: is_solved_solved)
  from solved_input_returns_at_once [OF s, of 5] solved_input_returns_at_once [OF s, of 8] s
  show ?thesis by simp
qed

subsection \<open>The solvers write to new arrays only\<close>

lemma extends_iff: "extends h h' \<longleftrightarrow> (\<exists>t. h' = h @ t)"
  unfolding extends_def
proof
  assume "take (length h) h' = h"
  then have "h' = h @ drop (length h) h'" by (metis append_take_drop_id)
  then show "\<exists>t. h' = h @ t" ..
next
  assume "\<exists>t. h' = h @ t"
  then show "take (length h) h' = h" by auto
qed

lemma extends_refl: "extends h h"
  by (simp add: extends_def)

lemma extends_trans: "extends h h' \<Longrightarrow> extends h' h'' \<Longrightarrow> extends h h''"
  by (auto simp: extends_iff)

lemma extends_alloc: "extends h h' \<Longrightarrow> extends h (h' @ [v])"
  by (auto simp: extends_iff)

lemma extends_update: "extends h h' \<Longrightarrow> length h \<le> n \<Longrightarrow> extends h (h'[n := v])"
  by (auto simp: extends_iff list_update_append)

lemma extends_nth: "extends h h' \<Longrightarrow> a < length h \<Longrightarrow> h' ! a = h ! a"
  by (auto simp: extends_iff nth_append)

lemma extends_length: "extends h h' \<Longrightarrow> length h \<le> length h'"
  by (auto simp: extends_iff)

lemma update_last2: "(h @ [a, b])[Suc (length h) := c] = h @ [a, c]"
  by (simp add: list_update_append)

lemma nth_last2: "(h @ [a, b]) ! Suc (length h) = b"
  by (simp add: nth_append)

lemma extends_app: "extends h0 h \<Longrightarrow> extends h0 (h @ t)"
  by (auto simp: extends_iff)

lemma bfs_moves_Cons:
  "bfs_moves (move # moves) cur d n (queue, came_from, visited, h) =
     (case np_array_reshape cur of
        Inl e \<Rightarrow> Some (Inl (Inl e, h @ [solved_faces]))
      | Inr fs \<Rightarrow>
          (case apply_move move fs of
             Inl e \<Rightarrow> Some (Inl (Inl e, h @ [solved_faces, fs]))
           | Inr fs' \<Rightarrow>
               (if is_solved fs' then
                  (if \<not> hashable (cube_state_to_hashable fs') then
                     Some (Inl (Inl TypeError, h @ [solved_faces, fs']))
                   else case reconstruct_path (cube_state_to_hashable fs')
                               (came_from(cube_state_to_hashable fs' \<mapsto> (cur, move))) of
                          None \<Rightarrow> None
                        | Some (Inl e) \<Rightarrow> Some (Inl (Inl e, h @ [solved_faces, fs']))
                        | Some (Inr solution) \<Rightarrow>
                            Some (Inl (Inr (True, solution, n), h @ [solved_faces, fs'])))
                else if \<not> hashable (cube_state_to_hashable fs') then
                  Some (Inl (Inl TypeError, h @ [solved_faces, fs']))
                else if cube_state_to_hashable fs' \<notin> visited then
                  bfs_moves moves cur d n
                    (queue @ [(cube_state_to_hashable fs', d + 1)],
                     came_from(cube_state_to_hashable fs' \<mapsto> (cur, move)),
                     insert (cube_state_to_hashable fs') visited, h @ [solved_faces, fs'])
                else bfs_moves moves cur d n
                       (queue, came_from, visited, h @ [solved_faces, fs']))))"
  by (simp add: alloc_def Let_def update_last2 nth_last2 split: sum.splits)

lemma bfs_moves_extends:
  "bfs_moves ms cur d n (queue, came_from, visited, h) = Some r \<Longrightarrow> extends h0 h \<Longrightarrow>
     extends h0 (case r of Inl out \<Rightarrow> snd out | Inr vars' \<Rightarrow> snd (snd (snd vars')))"
proof (induction ms arbitrary: queue came_from visited h r)
  case Nil
  then show ?case by auto
next
  case (Cons move moves)
  note ext = extends_app [OF Cons.prems(2)]
  from Cons.prems(1) show ?case
    unfolding bfs_moves_Cons
    by (auto simp: ext dest: Cons.IH [OF _ ext]
        split: sum.splits option.splits if_splits)
qed

lemma bfs_loop_extends:
  assumes "bfs_loop max_depth queue came_from visited n h = Some y"
  shows "\<forall>h0. extends h0 h \<longrightarrow> extends h0 (snd y)"
  using assms
proof (induction rule: bfs_loop.raw_induct [rotated 1, consumes 1])
  case (1 loop max_depth queue came_from visited n h y)
  show ?case
  proof (intro allI impI)
    fix h0 assume ext: "extends h0 h"
    show "extends h0 (snd y)"
    proof (cases queue)
      case Nil
      with 1(2) ext show ?thesis by auto
    next
      case (Cons p queue')
      obtain current_state depth where p: "p = (current_state, depth)" by (cases p)
      show ?thesis
      proof (cases "depth \<ge> max_depth")
        case True
        with 1(2) Cons p have "loop max_depth queue' came_from visited (n + 1) h = Some y"
          by simp
        from 1(1) [OF this] ext show ?thesis by blast
      next
        case False
        show ?thesis
        proof (cases "bfs_moves basic_moves current_state depth (n + 1)
                        (queue', came_from, visited, h)")
          case None
          with 1(2) Cons p False show ?thesis by simp
        next
          case (Some r)
          from bfs_moves_extends [OF Some ext]
          have r: "extends h0 (case r of Inl out \<Rightarrow> snd out
                                | Inr vars' \<Rightarrow> snd (snd (snd vars')))" .
          show ?thesis
          proof (cases r)
            case (Inl out)
            with 1(2) Cons p False Some r show ?thesis by simp
          next
            case (Inr vars')
            obtain q' cf' v' h' where v: "vars' = (q', cf', v', h')" by (cases vars') auto
            with 1(2) Cons p False Some Inr
            have "loop max_depth q' cf' v' (n + 1) h' = Some y" by simp
            from 1(1) [OF this] r Inr v show ?thesis by simp
          qed
        qed
      qed
    qed
  qed
qed

lemma bfs_solve_extends:
  assumes "bfs_solve max_depth cube h = Some (out, h')"
  shows "extends h h'"
proof -
  let ?h2 = "h @ [solved_faces, (h @ [solved_faces]) ! cube]"
  have e: "extends h ?h2" by (simp add: extends_iff)
  from assms consider "h' = h" | "h' = ?h2"
    | start where "bfs_loop max_depth [(start, 0)] Map.empty {start} 0 ?h2 = Some (out, h')"
    by (auto simp: bfs_solve_def alloc_def Let_def split: if_splits)
  then show ?thesis
  proof cases
    case 1
    then show ?thesis by (simp add: extends_refl)
  next
    case 2
    with e show ?thesis by simp
  next
    case 3
    from bfs_loop_extends [OF 3] e show ?thesis by simp
  qed
qed

lemma astar_moves_extends:
  "extends h0 h \<Longrightarrow>
     extends h0 (case astar_moves ms cur cc d (os, cf, g, f, v, c, h) of
                   Inl out \<Rightarrow> snd out
                 | Inr vars' \<Rightarrow> snd (snd (snd (snd (snd (snd vars'))))))"
proof (induction ms arbitrary: os cf g f v c h)
  case Nil
  then show ?case by simp
next
  case (Cons move moves)
  note ext = extends_app [OF Cons.prems]
  have ihl: "extends h0 b"
    if "astar_moves moves cur cc d (os, cf, g, f, v, c, h @ t) = Inl (a, b)"
    for os cf g f v c t a b
    using Cons.IH [where h = "h @ t" and os = os and cf = cf and g = g and f = f
        and v = v and c = c] ext [of t] that by simp
  have ihr: "extends h0 b"
    if "astar_moves moves cur cc d (os, cf, g, f, v, c, h @ t) = Inr (a1, a2, a3, a4, a5, a6, b)"
    for os cf g f v c t a1 a2 a3 a4 a5 a6 b
    using Cons.IH [where h = "h @ t" and os = os and cf = cf and g = g and f = f
        and v = v and c = c] ext [of t] that by simp
  show ?case
    by (auto simp: alloc_def Let_def update_last2 nth_last2 ext
        dest: ihl ihr split: sum.splits option.splits)
qed

lemma astar_loop_extends:
  assumes "astar_loop max_depth open_set came_from g_score f_score visited counter n h = Some y"
  shows "\<forall>h0. extends h0 h \<longrightarrow> extends h0 (snd y)"
  using assms
proof (induction rule: astar_loop.raw_induct [rotated 1, consumes 1])
  case (1 loop max_depth open_set came_from g_score f_score visited counter n h y)
  show ?case
  proof (intro allI impI)
    fix h0 assume ext0: "extends h0 h"
    note ext = extends_app [OF ext0]
    show "extends h0 (snd y)"
    proof (cases open_set)
      case Nil
      with 1(2) ext0 show ?thesis by auto
    next
      case (Cons x xs)
      obtain f c current_state depth open_set' where
        pop: "heappop x xs = ((f, c, current_state, depth), open_set')"
        by (metis prod_cases4 surj_pair)
      show ?thesis
      proof (cases "np_array_reshape current_state")
        case (Inl e)
        with 1(2) Cons pop ext show ?thesis
          by (auto simp: alloc_def)
      next
        case (Inr fs)
        let ?h = "h @ [solved_faces, fs]"
        note eq = 1(2) [unfolded Cons, simplified, unfolded pop, simplified,
            unfolded alloc_def Let_def Inr, simplified, unfolded nth_last2]
        show ?thesis
        proof (cases "is_solved fs")
          case True
          with eq ext show ?thesis
            by (auto split: option.splits sum.splits)
        next
          case False
          note ns = this
          show ?thesis
          proof (cases "depth \<ge> max_depth")
            case True
            with eq ns have
              "loop max_depth open_set' came_from g_score f_score visited counter (n + 1) ?h
                 = Some y" by simp
            from 1(1) [OF this] ext show ?thesis by blast
          next
            case False
            show ?thesis
            proof (cases "astar_moves basic_moves current_state (Suc (length h)) depth
                (open_set', came_from, g_score, f_score, visited, counter, ?h)")
              case (Inl out)
              with astar_moves_extends [OF ext [of "[solved_faces, fs]"], of basic_moves
                  current_state "Suc (length h)" depth open_set' came_from g_score f_score
                  visited counter] eq ns False
              show ?thesis by simp
            next
              case r: (Inr vars')
              obtain os' cf' g' f' v' c' h' where
                v: "vars' = (os', cf', g', f', v', c', h')"
                by (metis prod_cases4 surj_pair)
              from astar_moves_extends [OF ext [of "[solved_faces, fs]"], of basic_moves
                  current_state "Suc (length h)" depth open_set' came_from g_score f_score
                  visited counter] r v
              have e': "extends h0 h'" by simp
              from eq ns False r v
              have "loop max_depth os' cf' g' f' v' c' (n + 1) h' = Some y" by simp
              from 1(1) [OF this] e' show ?thesis by blast
            qed
          qed
        qed
      qed
    qed
  qed
qed

lemma astar_solve_extends:
  assumes "astar_solve max_depth cube h = Some (out, h')"
  shows "extends h h'"
proof -
  let ?h2 = "h @ [solved_faces, (h @ [solved_faces]) ! cube]"
  have e: "extends h ?h2" by (simp add: extends_iff)
  from assms consider "h' = h" | "h' = ?h2"
    | os g f v where "astar_loop max_depth os Map.empty g f v 0 0 ?h2 = Some (out, h')"
    by (auto simp: astar_solve_def alloc_def Let_def split: if_splits)
  then show ?thesis
  proof cases
    case 1
    then show ?thesis by (simp add: extends_refl)
  next
    case 2
    with e show ?thesis by simp
  next
    case 3
    from astar_loop_extends [OF 3] e show ?thesis by simp
  qed
qed

text \<open>
  C10: neither solver writes to the array of the caller's cube.  For every store, every
  cube in it and every depth bound, whenever a call ends (by a return or by an
  exception) the array of the cube is what it was before the call; and for a cube of
  shape (6, 3, 3) the call does end.
\<close>

theorem solvers_leave_input_unchanged:
  assumes "cube < length h"
  shows "(\<forall>out h'. bfs_solve max_depth cube h = Some (out, h') \<longrightarrow> h' ! cube = h ! cube) \<and>
         (\<forall>out h'. astar_solve max_depth cube h = Some (out, h') \<longrightarrow> h' ! cube = h ! cube) \<and>
         (wf_faces (h ! cube) \<longrightarrow>
            (\<exists>out h'. bfs_solve max_depth cube h = Some (out, h')) \<and>
            (\<exists>out h'. astar_solve max_depth cube h = Some (out, h')))"
proof (intro conjI allI impI)
  fix out h' assume "bfs_solve max_depth cube h = Some (out, h')"
  from extends_nth [OF bfs_solve_extends [OF this] assms] show "h' ! cube = h ! cube" .
next
  fix out h' assume "astar_solve max_depth cube h = Some (out, h')"
  from extends_nth [OF astar_solve_extends [OF this] assms] show "h' ! cube = h ! cube" .
next
  assume w: "wf_faces (h ! cube)"
  show "\<exists>out h'. bfs_solve max_depth cube h = Some (out, h')"
    using bfs_solve_unsolved [OF w _ assms, of max_depth]
    by (cases "is_solved (h ! cube)") (simp_all add: bfs_solve_def)
next
  assume w: "wf_faces (h ! cube)"
  show "\<exists>out h'. astar_solve max_depth cube h = Some (out, h')"
    using astar_solve_unsolved [OF w _ assms, of max_depth]
    by (cases "is_solved (h ! cube)") (simp_all add: astar_solve_def)
qed

theorem solvers_leave_input_unchanged_witness:
  "(0::nat) < length [move_F False solved_faces] \<and>
   wf_faces ([move_F False solved_faces] ! 0) \<and>
   (\<exists>out h'. bfs_solve 5 0 [move_F False solved_faces] = Some (out, h') \<and>
      h' ! 0 = move_F False solved_faces) \<and>
   (\<exists>out h'. astar_solve 8 0 [move_F False solved_faces] = Some (out, h') \<and>
      h' ! 0 = move_F False solved_faces)"
proof -
  have l: "(0::nat) < length [move_F False solved_faces]" by simp
  have w: "wf_faces ([move_F False solved_faces] ! 0)" by (simp add: wf_F)
  from solvers_leave_input_unchanged [OF l, of 5] w
  have b: "\<exists>out h'. bfs_solve 5 0 [move_F False solved_faces] = Some (out, h') \<and>
      h' ! 0 = move_F False solved_faces"
    by (metis nth_Cons_0)
  from solvers_leave_input_unchanged [OF l, of 8] w
  have a: "\<exists>out h'. astar_solve 8 0 [move_F False solved_faces] = Some (out, h') \<and>
      h' ! 0 = move_F False solved_faces"
    by (metis nth_Cons_0)
  from l w a b show ?thesis by blast
qed

end
